theory Spec2Isabelle
  imports Complex_Main "HOL-Library.Sublist" "HOL-Library.Multiset"
begin

section \<open>Data model (src/src/types.py)\<close>

text \<open>
  The two enums are closed sets of identifiers. Both mix in \<^verbatim>\<open>str\<close> and every member's
  value is a non-empty string, so every member is truthy: \<^verbatim>\<open>if query.platform:\<close> and
  \<^verbatim>\<open>if query.method:\<close> test exactly "is not None".
\<close>

datatype platform = GOOGLE_DRIVE | NOTION

datatype search_method = KEYWORD | SEMANTIC | FULL_TEXT | METADATA

text \<open>
  A \<^verbatim>\<open>Dict[str, Any]\<close> is an association list from keys to values of an arbitrary type
  \<open>'v\<close>; only key membership and emptiness are ever inspected.
\<close>

type_synonym 'v dict = "(string \<times> 'v) list"

text \<open>
  \<^verbatim>\<open>SearchQuery\<close>. The field \<^verbatim>\<open>method\<close> is written \<open>method'\<close> (the plain name is reserved
  in Isabelle). \<^verbatim>\<open>limit\<close> is an unbounded Python integer; the model class puts no
  constraint on it or on the text.
\<close>

record 'v search_query =
  query :: string
  platform :: "platform option"
  method' :: "search_method option"
  filters :: "'v dict option"
  limit :: int

text \<open>
  \<^verbatim>\<open>SearchResult\<close>. The fields \<^verbatim>\<open>id\<close> and \<^verbatim>\<open>platform\<close> are written \<open>result_id\<close> and
  \<open>result_platform\<close>. A score is a finite number (a float that is not NaN), read as a
  real: only the order of scores is ever used.
\<close>

record 'v search_result =
  result_id :: string
  title :: string
  content :: "string option"
  url :: string
  result_platform :: platform
  score :: real
  metadata :: "'v dict"

text \<open>\<^verbatim>\<open>SearchResponse\<close>. The field \<^verbatim>\<open>query\<close> is written \<open>response_query\<close>.\<close>

record 'v search_response =
  results :: "'v search_result list"
  response_query :: "'v search_query"
  total_results :: int
  platforms_searched :: "platform list"
  method_used :: search_method

section \<open>Python string operations\<close>

text \<open>
  A query text is a string of 8-bit characters, each read as the code point of the same
  number (0 to 255); code points beyond 255 are outside the model.

  \<open>isspace\<close> is \<^verbatim>\<open>str.isspace\<close> on one character, which is also what \<^verbatim>\<open>str.strip()\<close>,
  \<^verbatim>\<open>str.split()\<close> and the regular expression class \<^verbatim>\<open>\s\<close> use: tab, line feed, vertical
  tab, form feed, carriage return, the four separators 0x1C..0x1F, the space, the next-line
  control 0x85 and the no-break space 0xA0.
\<close>

definition isspace :: "char \<Rightarrow> bool" where
  "isspace c \<longleftrightarrow>
     c \<in> set [CHR 0x09, CHR 0x0A, CHR 0x0B, CHR 0x0C, CHR 0x0D,
               CHR 0x1C, CHR 0x1D, CHR 0x1E, CHR 0x1F, CHR 0x20, CHR 0x85, CHR 0xA0]"

text \<open>\<^verbatim>\<open>s.strip()\<close>: leading and trailing whitespace removed.\<close>

definition str_strip :: "string \<Rightarrow> string" where
  "str_strip s = rev (dropWhile isspace (rev (dropWhile isspace s)))"

text \<open>
  \<^verbatim>\<open>s.lower()\<close>: the letters A..Z go to a..z and the capital letters 0xC0..0xDE of the
  upper half (all but the multiplication sign 0xD7) go to the small letters 0xE0..0xFE;
  every other character stays.
\<close>

definition upper_letters :: string where
  "upper_letters =
     ''ABCDEFGHIJKLMNOPQRSTUVWXYZ'' @
       [CHR 0xC0, CHR 0xC1, CHR 0xC2, CHR 0xC3, CHR 0xC4, CHR 0xC5, CHR 0xC6, CHR 0xC7,
        CHR 0xC8, CHR 0xC9, CHR 0xCA, CHR 0xCB, CHR 0xCC, CHR 0xCD, CHR 0xCE, CHR 0xCF,
        CHR 0xD0, CHR 0xD1, CHR 0xD2, CHR 0xD3, CHR 0xD4, CHR 0xD5, CHR 0xD6, CHR 0xD8,
        CHR 0xD9, CHR 0xDA, CHR 0xDB, CHR 0xDC, CHR 0xDD, CHR 0xDE]"

definition lower_letters :: string where
  "lower_letters =
     ''abcdefghijklmnopqrstuvwxyz'' @
       [CHR 0xE0, CHR 0xE1, CHR 0xE2, CHR 0xE3, CHR 0xE4, CHR 0xE5, CHR 0xE6, CHR 0xE7,
        CHR 0xE8, CHR 0xE9, CHR 0xEA, CHR 0xEB, CHR 0xEC, CHR 0xED, CHR 0xEE, CHR 0xEF,
        CHR 0xF0, CHR 0xF1, CHR 0xF2, CHR 0xF3, CHR 0xF4, CHR 0xF5, CHR 0xF6, CHR 0xF8,
        CHR 0xF9, CHR 0xFA, CHR 0xFB, CHR 0xFC, CHR 0xFD, CHR 0xFE]"

definition lower_char :: "char \<Rightarrow> char" where
  "lower_char c =
     (case map_of (zip upper_letters lower_letters) c of
        Some l \<Rightarrow> l
      | None \<Rightarrow> c)"

definition str_lower :: "string \<Rightarrow> string" where
  "str_lower s = map lower_char s"

text \<open>\<^verbatim>\<open>sub in s\<close> on strings: \<open>sub\<close> occurs in \<open>s\<close> as a contiguous substring.\<close>

fun str_in :: "string \<Rightarrow> string \<Rightarrow> bool" where
  "str_in sub [] = (sub = [])"
| "str_in sub (c # cs) = (prefix sub (c # cs) \<or> str_in sub cs)"

text \<open>
  \<^verbatim>\<open>s.split()\<close>: the maximal runs of non-whitespace characters, in order. The first
  argument of \<open>split_from\<close> is the token being read.
\<close>

fun split_from :: "string \<Rightarrow> string \<Rightarrow> string list" where
  "split_from word [] = (if word = [] then [] else [word])"
| "split_from word (c # cs) =
     (if isspace c then (if word = [] then split_from [] cs else word # split_from [] cs)
      else split_from (word @ [c]) cs)"

definition str_split :: "string \<Rightarrow> string list" where
  "str_split s = split_from [] s"

section \<open>The query classifier (src/src/orchestrator.py)\<close>

subsection \<open>Platform selection\<close>

definition google_keywords :: "string list" where
  "google_keywords = [''drive'', ''docs'', ''sheets'', ''slides'', ''document'']"

definition notion_keywords :: "string list" where
  "notion_keywords = [''notion'', ''page'', ''database'', ''workspace'']"

text \<open>\<^verbatim>\<open>any(keyword in query_lower for keyword in keywords)\<close>.\<close>

definition has_hint :: "string list \<Rightarrow> string \<Rightarrow> bool" where
  "has_hint keywords query_lower = list_ex (\<lambda>keyword. str_in keyword query_lower) keywords"

definition determine_platforms :: "'v search_query \<Rightarrow> platform list" where
  "determine_platforms q =
     (case platform q of
        Some p \<Rightarrow> [p]
      | None \<Rightarrow>
          let query_lower = str_lower (query q);
              has_google_hint = has_hint google_keywords query_lower;
              has_notion_hint = has_hint notion_keywords query_lower
          in if has_google_hint \<and> \<not> has_notion_hint then [] @ [GOOGLE_DRIVE]
             else if has_notion_hint \<and> \<not> has_google_hint then [] @ [NOTION]
             else [GOOGLE_DRIVE, NOTION])"

subsection \<open>Method selection\<close>

text \<open>
  \<^verbatim>\<open>query.filters and any(key in query.filters for key in [...])\<close>: false when the
  filters are \<^verbatim>\<open>None\<close> or an empty dict, otherwise whether one of the listed keys is a
  key of the dict.
\<close>

definition metadata_keys :: "string list" where
  "metadata_keys = [''date'', ''author'', ''modified_date'', ''created_date'', ''owner'']"

definition has_metadata_filter :: "'v dict option \<Rightarrow> bool" where
  "has_metadata_filter fs =
     (case fs of
        None \<Rightarrow> False
      | Some d \<Rightarrow> d \<noteq> [] \<and> list_ex (\<lambda>key. key \<in> set (map fst d)) metadata_keys)"

text \<open>
  The three question patterns, each read as \<^verbatim>\<open>re.search(pattern, s, re.IGNORECASE)\<close> on
  a string \<open>s\<close> of 8-bit characters (no such character other than a letter and its capital
  matches an ASCII letter of a pattern when case is ignored).

  \<^verbatim>\<open>^\s*(what|how|why|when|where|who)\<close>: anchored at the start of the string; after the
  leading whitespace one of the six letter sequences follows, in any case. Nothing is
  required of the character after it.
\<close>

definition wh_words :: "string list" where
  "wh_words = [''what'', ''how'', ''why'', ''when'', ''where'', ''who'']"

definition matches_wh_start :: "string \<Rightarrow> bool" where
  "matches_wh_start s = list_ex (\<lambda>w. prefix w (str_lower (dropWhile isspace s))) wh_words"

text \<open>
  \<^verbatim>\<open>\?$\<close>: a question mark at the end of the string, or just before a line feed that
  ends the string (where \<^verbatim>\<open>$\<close> also matches).
\<close>

definition matches_question_end :: "string \<Rightarrow> bool" where
  "matches_question_end s \<longleftrightarrow> suffix ''?'' s \<or> suffix [CHR ''?'', CHR 0x0A] s"

text \<open>\<^verbatim>\<open>explain|describe|tell me about\<close>: one of the three phrases anywhere, in any case.\<close>

definition explain_phrases :: "string list" where
  "explain_phrases = [''explain'', ''describe'', ''tell me about'']"

definition matches_explain :: "string \<Rightarrow> bool" where
  "matches_explain s = list_ex (\<lambda>w. str_in w (str_lower s)) explain_phrases"

definition question_patterns :: "(string \<Rightarrow> bool) list" where
  "question_patterns = [matches_wh_start, matches_question_end, matches_explain]"

definition determine_search_method :: "'v search_query \<Rightarrow> search_method" where
  "determine_search_method q =
     (case method' q of
        Some m \<Rightarrow> m
      | None \<Rightarrow>
          let query_text = str_strip (query q) in
          if str_in [CHR 0x22] query_text \<or> str_in [CHR 0x27] query_text then FULL_TEXT
          else if has_metadata_filter (filters q) then METADATA
          else if list_ex (\<lambda>pattern. pattern query_text) question_patterns then SEMANTIC
          else if 8 < length (str_split query_text) then SEMANTIC
          else KEYWORD)"

section \<open>Dispatch and aggregation (src/src/orchestrator.py)\<close>

text \<open>
  A Python call either returns a value or raises; an exception raised inside a call
  that no \<^verbatim>\<open>try\<close> surrounds leaves the caller as well.
\<close>

datatype py_exception = PyException string

text \<open>
  A retriever object. The source never calls one; all it does with a retriever is test its
  truth value, which is that of \<^verbatim>\<open>bool(obj)\<close>: true for an ordinary object, false for one
  whose class says so (\<^verbatim>\<open>__bool__\<close>, \<^verbatim>\<open>__len__\<close>).
\<close>

datatype retriever = Retriever (truthy: bool)

text \<open>
  \<^verbatim>\<open>SearchOrchestrator\<close>: the two retriever attributes, each \<^verbatim>\<open>None\<close> or some retriever
  object; \<^verbatim>\<open>__init__\<close> sets both to \<^verbatim>\<open>None\<close>.
\<close>

record search_orchestrator =
  google_drive_retriever :: "retriever option"
  notion_retriever :: "retriever option"

definition orchestrator_init :: search_orchestrator where
  "orchestrator_init = \<lparr>google_drive_retriever = None, notion_retriever = None\<rparr>"

text \<open>\<^verbatim>\<open>not x\<close> for an attribute \<open>x\<close> that is \<^verbatim>\<open>None\<close> or a retriever.\<close>

definition py_not :: "retriever option \<Rightarrow> bool" where
  "py_not x = (case x of None \<Rightarrow> True | Some r \<Rightarrow> \<not> truthy r)"

text \<open>
  The per-platform methods \<^verbatim>\<open>_search_google_drive\<close> and \<^verbatim>\<open>_search_notion\<close>: in the source
  both return the empty list without touching a retriever.
\<close>

type_synonym 'v platform_search =
  "'v search_query \<Rightarrow> search_method \<Rightarrow> py_exception + 'v search_result list"

definition search_google_drive :: "'v platform_search" where
  "search_google_drive q m = Inr []"

definition search_notion :: "'v platform_search" where
  "search_notion q m = Inr []"

text \<open>
  \<^verbatim>\<open>_search_platform\<close>, with the two methods it calls as parameters \<open>gd\<close> and \<open>nt\<close>, so that
  the aggregation can be stated for platform methods that return results or raise.
  A retriever attribute that is falsy (\<^verbatim>\<open>if not self.google_drive_retriever\<close>) gives the
  empty list and the platform method is not called. The final \<^verbatim>\<open>return []\<close> of the source
  is for a platform that is neither of the two members of the enum.
\<close>

definition search_platform_with ::
  "'v platform_search \<Rightarrow> 'v platform_search \<Rightarrow> search_orchestrator \<Rightarrow>
   'v search_query \<Rightarrow> platform \<Rightarrow> search_method \<Rightarrow> py_exception + 'v search_result list" where
  "search_platform_with gd nt self q p m =
     (case p of
        GOOGLE_DRIVE \<Rightarrow> (if py_not (google_drive_retriever self) then Inr [] else gd q m)
      | NOTION \<Rightarrow> (if py_not (notion_retriever self) then Inr [] else nt q m))"

definition search_platform ::
  "search_orchestrator \<Rightarrow> 'v search_query \<Rightarrow> platform \<Rightarrow> search_method \<Rightarrow>
   py_exception + 'v search_result list" where
  "search_platform = search_platform_with search_google_drive search_notion"

text \<open>
  The loop \<^verbatim>\<open>for platform in platforms: all_results.extend(...)\<close>: the accumulator is
  \<open>all_results\<close>; there is no \<^verbatim>\<open>try\<close> around the call, so an exception ends the loop.
\<close>

fun dispatch ::
  "(platform \<Rightarrow> py_exception + 'a list) \<Rightarrow> platform list \<Rightarrow> 'a list \<Rightarrow> py_exception + 'a list" where
  "dispatch sp [] all_results = Inr all_results"
| "dispatch sp (p # ps) all_results =
     (case sp p of
        Inl e \<Rightarrow> Inl e
      | Inr platform_results \<Rightarrow> dispatch sp ps (all_results @ platform_results))"

text \<open>
  \<^verbatim>\<open>xs.sort(key=key, reverse=True)\<close>: the list is reversed, sorted stably in ascending
  order of the key, and reversed again.
\<close>

definition sort_reverse :: "('a \<Rightarrow> 'k::linorder) \<Rightarrow> 'a list \<Rightarrow> 'a list" where
  "sort_reverse key xs = rev (sort_key key (rev xs))"

text \<open>
  \<^verbatim>\<open>xs[:stop]\<close>: the first \<open>stop\<close> elements; a negative \<open>stop\<close> counts from the end of
  the list.
\<close>

definition slice_to :: "'a list \<Rightarrow> int \<Rightarrow> 'a list" where
  "slice_to xs stop =
     (if 0 \<le> stop then take (nat stop) xs else take (nat (int (length xs) + stop)) xs)"

text \<open>
  \<^verbatim>\<open>search\<close>. The sort is in place, so \<^verbatim>\<open>len(all_results)\<close> is taken of the sorted list.
\<close>

definition search_with ::
  "'v platform_search \<Rightarrow> 'v platform_search \<Rightarrow> search_orchestrator \<Rightarrow>
   'v search_query \<Rightarrow> py_exception + 'v search_response" where
  "search_with gd nt self q =
     (let platforms = determine_platforms q;
          m = determine_search_method q
      in case dispatch (\<lambda>p. search_platform_with gd nt self q p m) platforms [] of
           Inl e \<Rightarrow> Inl e
         | Inr all_results \<Rightarrow>
             let sorted_results = sort_reverse score all_results;
                 limited_results = slice_to sorted_results (limit q)
             in Inr \<lparr>results = limited_results,
                     response_query = q,
                     total_results = int (length sorted_results),
                     platforms_searched = platforms,
                     method_used = m\<rparr>)"

definition search ::
  "search_orchestrator \<Rightarrow> 'v search_query \<Rightarrow> py_exception + 'v search_response" where
  "search = search_with search_google_drive search_notion"

section \<open>Reference notions the properties are stated with\<close>

text \<open>
  \<open>ys\<close> is the stable sort of \<open>xs\<close> by \<open>key\<close>, descending: the same elements, in
  non-increasing order of the key, elements of equal key in the order they have in \<open>xs\<close>.
\<close>

definition stable_sorted_desc :: "('a \<Rightarrow> 'k::linorder) \<Rightarrow> 'a list \<Rightarrow> 'a list \<Rightarrow> bool" where
  "stable_sorted_desc key xs ys \<longleftrightarrow>
     mset ys = mset xs \<and>
     sorted_wrt (\<lambda>a b. key b \<le> key a) ys \<and>
     (\<forall>k. filter (\<lambda>x. key x = k) ys = filter (\<lambda>x. key x = k) xs)"

text \<open>
  The query's filters hold at least one of the keys "author", "date", "owner",
  "modified_date" or "created_date".
\<close>

definition filter_keys_recognized :: "'v search_query \<Rightarrow> bool" where
  "filter_keys_recognized q \<longleftrightarrow>
     (case filters q of
        None \<Rightarrow> False
      | Some d \<Rightarrow> \<exists>k \<in> {''author'', ''date'', ''owner'', ''modified_date'', ''created_date''}.
                    k \<in> fst ` set d)"

text \<open>
  "Starts with a wh-word", read as a whole word: one of the six words opens the string
  (in any case) and the string ends there or goes on with a character that is not an
  ASCII letter, a digit or an underscore. This is the reading under which "whole" and "however"
  do not start with a wh-word; it is compared with \<open>matches_wh_start\<close> below.
\<close>

definition word_char :: "char \<Rightarrow> bool" where
  "word_char c \<longleftrightarrow>
     c \<in> set (''abcdefghijklmnopqrstuvwxyz'' @ ''ABCDEFGHIJKLMNOPQRSTUVWXYZ'' @ ''0123456789_'')"

definition starts_with_wh_word :: "string \<Rightarrow> bool" where
  "starts_with_wh_word s \<longleftrightarrow>
     list_ex (\<lambda>w. prefix w (str_lower s) \<and>
                  (case drop (length w) s of [] \<Rightarrow> True | c # _ \<Rightarrow> \<not> word_char c)) wh_words"

text \<open>
  The retriever of platform \<open>p\<close> is unconfigured or unavailable: the attribute is \<^verbatim>\<open>None\<close>
  or a falsy object.
\<close>

definition unconfigured :: "search_orchestrator \<Rightarrow> platform \<Rightarrow> bool" where
  "unconfigured self p =
     py_not (case p of
               GOOGLE_DRIVE \<Rightarrow> google_drive_retriever self
             | NOTION \<Rightarrow> notion_retriever self)"

section \<open>Example data\<close>

text \<open>A search result with a given id, platform and score, for the worked examples.\<close>

definition example_result :: "string \<Rightarrow> platform \<Rightarrow> real \<Rightarrow> string search_result" where
  "example_result i p s =
     \<lparr>result_id = i, title = i, content = None, url = ''https://example.org/'' @ i,
      result_platform = p, score = s, metadata = []\<rparr>"

section \<open>Properties of the string operations\<close>

lemma str_in_singleton: "str_in [c] s \<longleftrightarrow> c \<in> set s"
  by (induction s) auto

lemma str_in_sublist: "str_in sub s \<longleftrightarrow> sublist sub s"
  by (induction s) (auto simp: sublist_Cons_right)

lemma rev_dropWhile_rev_decomp: "rev (dropWhile P (rev u)) @ rev (takeWhile P (rev u)) = u"
proof -
  have "rev (takeWhile P (rev u) @ dropWhile P (rev u)) = u" by simp
  then show ?thesis by (simp only: rev_append)
qed

lemma str_strip_decomp:
  "\<exists>l t. s = l @ str_strip s @ t \<and> (\<forall>c\<in>set l. isspace c) \<and> (\<forall>c\<in>set t. isspace c) \<and>
     dropWhile isspace s = str_strip s @ t"
proof -
  let ?u = "dropWhile isspace s"
  let ?l = "takeWhile isspace s"
  let ?t = "rev (takeWhile isspace (rev ?u))"
  have 1: "s = ?l @ ?u" by simp
  have 2: "?u = str_strip s @ ?t"
    unfolding str_strip_def by (rule rev_dropWhile_rev_decomp[symmetric])
  have 3: "\<forall>c\<in>set ?l. isspace c" by (auto dest: set_takeWhileD)
  have 4: "\<forall>c\<in>set ?t. isspace c" by (auto dest: set_takeWhileD)
  have "s = ?l @ str_strip s @ ?t" using 1 2 by simp
  with 2 3 4 show ?thesis by blast
qed

lemma set_str_strip:
  assumes "\<not> isspace c"
  shows "c \<in> set (str_strip s) \<longleftrightarrow> c \<in> set s"
proof -
  obtain l t where s: "s = l @ str_strip s @ t"
    and l: "\<forall>c\<in>set l. isspace c" and t: "\<forall>c\<in>set t. isspace c"
    using str_strip_decomp by blast
  have "set s = set l \<union> set (str_strip s) \<union> set t" by (subst s) auto
  with assms l t show ?thesis by auto
qed

lemma str_strip_hd: "str_strip s \<noteq> [] \<Longrightarrow> \<not> isspace (hd (str_strip s))"
proof -
  assume ne: "str_strip s \<noteq> []"
  obtain t where d: "dropWhile isspace s = str_strip s @ t"
    using str_strip_decomp by blast
  from ne d have "dropWhile isspace s \<noteq> []" by simp
  then have "\<not> isspace (hd (dropWhile isspace s))" by (rule hd_dropWhile)
  with ne d show ?thesis by simp
qed

lemma str_strip_last: "str_strip s \<noteq> [] \<Longrightarrow> \<not> isspace (last (str_strip s))"
proof -
  assume ne: "str_strip s \<noteq> []"
  let ?d = "dropWhile isspace (rev (dropWhile isspace s))"
  from ne have d: "?d \<noteq> []" by (simp add: str_strip_def)
  then have "\<not> isspace (hd ?d)" by (rule hd_dropWhile)
  moreover have "last (str_strip s) = hd ?d" using d by (simp add: str_strip_def last_rev)
  ultimately show ?thesis by simp
qed

lemma dropWhile_str_strip: "dropWhile isspace (str_strip s) = str_strip s"
  using str_strip_hd[of s] by (auto simp: dropWhile_eq_self_iff)

lemma isspace_cases:
  "isspace c \<Longrightarrow>
     c = CHR 0x09 \<or> c = CHR 0x0A \<or> c = CHR 0x0B \<or> c = CHR 0x0C \<or> c = CHR 0x0D \<or>
     c = CHR 0x1C \<or> c = CHR 0x1D \<or> c = CHR 0x1E \<or> c = CHR 0x1F \<or> c = CHR 0x20 \<or>
     c = CHR 0x85 \<or> c = CHR 0xA0"
  by (simp add: isspace_def)

lemma lower_char_isspace: "isspace c \<Longrightarrow> lower_char c = c"
  by (drule isspace_cases) (elim disjE; simp add: lower_char_def upper_letters_def lower_letters_def)

lemma prefix_lower_strip:
  assumes w: "\<forall>c\<in>set w. \<not> isspace c"
  shows "prefix w (str_lower (dropWhile isspace s)) \<longleftrightarrow> prefix w (str_lower (str_strip s))"
proof -
  obtain t where d: "dropWhile isspace s = str_strip s @ t" and t: "\<forall>c\<in>set t. isspace c"
    using str_strip_decomp by blast
  have low: "str_lower (dropWhile isspace s) = str_lower (str_strip s) @ str_lower t"
    by (simp add: d str_lower_def)
  have lt: "str_lower t = t" using t by (simp add: str_lower_def lower_char_isspace map_idI)
  show ?thesis
  proof
    assume "prefix w (str_lower (dropWhile isspace s))"
    then have "prefix w (str_lower (str_strip s) @ t)" by (simp add: low lt)
    then consider "prefix w (str_lower (str_strip s))"
      | us where "w = str_lower (str_strip s) @ us" "prefix us t"
      by (auto simp: prefix_append)
    then show "prefix w (str_lower (str_strip s))"
    proof cases
      case 1 then show ?thesis .
    next
      case 2
      have "us = []"
      proof (cases us)
        case Nil then show ?thesis .
      next
        case (Cons c cs)
        with 2 have "c \<in> set w" and "c \<in> set t" by (auto simp: prefix_def)
        with w t show ?thesis by blast
      qed
      with 2 show ?thesis by simp
    qed
  next
    assume "prefix w (str_lower (str_strip s))"
    then show "prefix w (str_lower (dropWhile isspace s))" by (simp add: low)
  qed
qed

lemma matches_question_end_strip:
  "matches_question_end (str_strip s) \<longleftrightarrow> str_strip s \<noteq> [] \<and> last (str_strip s) = CHR ''?''"
proof -
  have nl: "isspace (CHR 0x0A)" by (simp add: isspace_def)
  have "\<not> suffix [CHR ''?'', CHR 0x0A] (str_strip s)"
  proof
    assume "suffix [CHR ''?'', CHR 0x0A] (str_strip s)"
    then obtain a where a: "str_strip s = a @ [CHR ''?'', CHR 0x0A]" by (auto simp: suffix_def)
    then have "str_strip s \<noteq> []" and "last (str_strip s) = CHR 0x0A" by simp_all
    with nl str_strip_last[of s] show False by simp
  qed
  moreover have "suffix ''?'' (str_strip s) \<longleftrightarrow> str_strip s \<noteq> [] \<and> last (str_strip s) = CHR ''?''"
    by (cases "str_strip s" rule: rev_cases) (auto simp: suffix_def)
  ultimately show ?thesis by (simp add: matches_question_end_def)
qed

text \<open>
  The tokens of \<open>str_split\<close> are non-empty and free of whitespace, and together they are
  the non-whitespace characters of the string, in order.
\<close>

lemma concat_split_from:
  "concat (split_from word s) = word @ filter (\<lambda>c. \<not> isspace c) s"
  by (induction s arbitrary: word) simp_all

lemma concat_str_split: "concat (str_split s) = filter (\<lambda>c. \<not> isspace c) s"
  by (simp add: str_split_def concat_split_from)

lemma split_from_tokens:
  "\<forall>c\<in>set word. \<not> isspace c \<Longrightarrow> w \<in> set (split_from word s) \<Longrightarrow>
     w \<noteq> [] \<and> (\<forall>c\<in>set w. \<not> isspace c)"
proof (induction s arbitrary: word)
  case Nil
  then show ?case by (simp split: if_splits)
next
  case (Cons a s)
  show ?case
  proof (cases "isspace a")
    case True
    with Cons.prems(2) consider "w = word" "word \<noteq> []" | "w \<in> set (split_from [] s)"
      by (auto split: if_splits)
    then show ?thesis
    proof cases
      case 1
      with Cons.prems(1) show ?thesis by simp
    next
      case 2
      then show ?thesis using Cons.IH[of "[]"] by simp
    qed
  next
    case False
    with Cons.prems(2) have "w \<in> set (split_from (word @ [a]) s)" by simp
    moreover have "\<forall>c\<in>set (word @ [a]). \<not> isspace c" using Cons.prems(1) False by simp
    ultimately show ?thesis using Cons.IH[of "word @ [a]"] by blast
  qed
qed

lemma str_split_tokens: "w \<in> set (str_split s) \<Longrightarrow> w \<noteq> [] \<and> (\<forall>c\<in>set w. \<not> isspace c)"
  unfolding str_split_def by (rule split_from_tokens) simp_all

section \<open>Properties of the classifier\<close>

lemma has_metadata_filter_iff: "has_metadata_filter (filters q) \<longleftrightarrow> filter_keys_recognized q"
  by (cases "filters q") (auto simp: has_metadata_filter_def filter_keys_recognized_def metadata_keys_def)

lemma not_isspace_quotes: "\<not> isspace (CHR 0x22)" "\<not> isspace (CHR 0x27)"
  by (simp_all add: isspace_def)

lemma quote_in_strip:
  "str_in [CHR 0x22] (str_strip s) \<longleftrightarrow> CHR 0x22 \<in> set s"
  "str_in [CHR 0x27] (str_strip s) \<longleftrightarrow> CHR 0x27 \<in> set s"
  by (simp_all add: str_in_singleton set_str_strip not_isspace_quotes)

lemma wh_words_no_space: "w \<in> set wh_words \<Longrightarrow> c \<in> set w \<Longrightarrow> \<not> isspace c"
  unfolding wh_words_def isspace_def by (elim disjE | simp)+

lemma matches_wh_start_strip:
  "matches_wh_start (str_strip s) \<longleftrightarrow> (\<exists>w\<in>set wh_words. prefix w (str_lower (str_strip s)))"
  by (simp add: matches_wh_start_def dropWhile_str_strip list_ex_iff)

lemma matches_wh_start_raw:
  "matches_wh_start (str_strip s) \<longleftrightarrow>
     (\<exists>w\<in>set wh_words. prefix w (str_lower (dropWhile isspace s)))"
  using prefix_lower_strip[of _ s] wh_words_no_space
  unfolding matches_wh_start_strip by blast

lemma matches_explain_iff:
  "matches_explain s \<longleftrightarrow> (\<exists>w\<in>set explain_phrases. sublist w (str_lower s))"
  by (simp add: matches_explain_def list_ex_iff str_in_sublist)

lemma determine_search_method_heuristic:
  assumes "method' q = None"
  shows "determine_search_method q =
     (if CHR 0x22 \<in> set (query q) \<or> CHR 0x27 \<in> set (query q) then FULL_TEXT
      else if filter_keys_recognized q then METADATA
      else if matches_wh_start (str_strip (query q)) \<or>
              matches_question_end (str_strip (query q)) \<or>
              matches_explain (str_strip (query q)) \<or>
              8 < length (str_split (str_strip (query q)))
           then SEMANTIC
      else KEYWORD)"
  using assms
  by (simp add: determine_search_method_def Let_def quote_in_strip has_metadata_filter_iff
      question_patterns_def)


text \<open>
  The whole-word reading is the narrower one: a string that starts with a wh-word also
  matches the prefix pattern of the source.
\<close>

lemma starts_with_wh_word_matches:
  "starts_with_wh_word s \<Longrightarrow> \<exists>w\<in>set wh_words. prefix w (str_lower s)"
  by (auto simp: starts_with_wh_word_def list_ex_iff)

subsection \<open>Method selection\<close>

text \<open>
  C6. For every query with an explicit method set, \<open>determine_search_method\<close> returns
  exactly that method, whatever the text (quotes, interrogative form, length) and the
  filters are.
\<close>

theorem explicit_method_returned:
  "method' q = Some m \<Longrightarrow> determine_search_method q = m"
  by (simp add: determine_search_method_def)

theorem explicit_method_returned_witness:
  "determine_search_method
     \<lparr>query = CHR 0x22 # ''why is this so long a question about the budget of the year?'',
      platform = None, method' = Some KEYWORD,
      filters = Some [(''author'', ''mike'')], limit = 10\<rparr> = KEYWORD"
  by (rule explicit_method_returned) simp

text \<open>
  A quoted query with the explicit method KEYWORD is classified KEYWORD, not FULL_TEXT:
  the explicit method is tested before the quotes.
\<close>

theorem quoted_query_explicit_method_counterexample:
  "CHR 0x27 \<in> set (query \<lparr>query = CHR 0x27 # ''API documentation'' @ [CHR 0x27], platform = None,
        method' = Some KEYWORD, filters = (None :: string dict option), limit = 10\<rparr>) \<and>
   determine_search_method
     \<lparr>query = CHR 0x27 # ''API documentation'' @ [CHR 0x27], platform = None,
      method' = Some KEYWORD, filters = (None :: string dict option), limit = 10\<rparr> = KEYWORD \<and>
   KEYWORD \<noteq> FULL_TEXT"
  by (simp add: determine_search_method_def)

text \<open>
  C3, amended. For every query with no explicit method whose text contains a single or
  double quote character, \<open>determine_search_method\<close> returns FULL_TEXT, regardless of the
  query's length or filters.
\<close>

theorem quoted_query_full_text:
  assumes "method' q = None"
    and "CHR 0x22 \<in> set (query q) \<or> CHR 0x27 \<in> set (query q)"
  shows "determine_search_method q = FULL_TEXT"
  using assms by (simp add: determine_search_method_heuristic)

theorem quoted_query_full_text_witness:
  "determine_search_method
     \<lparr>query = CHR 0x22 # ''why is this so long a question about the budget of the year?'',
      platform = None, method' = None,
      filters = Some [(''author'', ''mike'')], limit = 10\<rparr> = FULL_TEXT"
  by (rule quoted_query_full_text) simp_all

text \<open>
  A query with an "author" filter, no explicit method and a quoted text is classified
  FULL_TEXT, not METADATA: the quotes are tested before the filters.
\<close>

theorem metadata_filter_quoted_counterexample:
  "filter_keys_recognized
     \<lparr>query = CHR 0x22 # ''budget 2024'' @ [CHR 0x22], platform = None, method' = None,
      filters = Some [(''author'', ''mike'')], limit = 10\<rparr> \<and>
   determine_search_method
     \<lparr>query = CHR 0x22 # ''budget 2024'' @ [CHR 0x22], platform = None, method' = None,
      filters = Some [(''author'', ''mike'')], limit = 10\<rparr> = FULL_TEXT \<and>
   FULL_TEXT \<noteq> METADATA"
  by (simp add: determine_search_method_heuristic filter_keys_recognized_def)

text \<open>
  C4, amended. For every query with no explicit method and no quote character in its
  text, whose filters contain at least one of the keys "author", "date", "owner",
  "modified_date" or "created_date", \<open>determine_search_method\<close> returns METADATA, even if
  the text also matches an interrogative pattern.
\<close>

theorem metadata_filter_gives_metadata:
  assumes "method' q = None"
    and "CHR 0x22 \<notin> set (query q)" and "CHR 0x27 \<notin> set (query q)"
    and "filter_keys_recognized q"
  shows "determine_search_method q = METADATA"
  using assms by (simp add: determine_search_method_heuristic)

theorem metadata_filter_gives_metadata_witness:
  "determine_search_method
     \<lparr>query = ''who wrote the meeting notes?'', platform = None, method' = None,
      filters = Some [(''status'', ''open''), (''owner'', ''sarah'')], limit = 10\<rparr> = METADATA"
  by (rule metadata_filter_gives_metadata) (simp_all add: filter_keys_recognized_def)

text \<open>
  C10. The interrogative check is a prefix match: for every query with no explicit
  method, no quote character and no recognized filter key, whose text, after its leading
  whitespace, begins in any case with one of the letter sequences what, how, why, when,
  where, who (also as the beginning of a longer word), \<open>determine_search_method\<close> returns
  SEMANTIC.
\<close>

theorem wh_prefix_semantic:
  assumes "method' q = None"
    and "CHR 0x22 \<notin> set (query q)" and "CHR 0x27 \<notin> set (query q)"
    and "\<not> filter_keys_recognized q"
    and "w \<in> {''what'', ''how'', ''why'', ''when'', ''where'', ''who''}"
    and "prefix w (str_lower (dropWhile isspace (query q)))"
  shows "determine_search_method q = SEMANTIC"
proof -
  from assms(5) have "w \<in> set wh_words" by (simp add: wh_words_def)
  with assms(6) have "matches_wh_start (str_strip (query q))"
    unfolding matches_wh_start_raw by blast
  with assms(1-4) show ?thesis by (simp add: determine_search_method_heuristic)
qed

theorem wh_prefix_semantic_witness:
  "determine_search_method
     \<lparr>query = ''  HOWever'', platform = None, method' = None,
      filters = Some [(''status'', ''open'')], limit = 10\<rparr> = SEMANTIC"
  by (rule wh_prefix_semantic[where w = "''how''"])
     (simp_all add: filter_keys_recognized_def isspace_def str_lower_def lower_char_def
        upper_letters_def lower_letters_def)

text \<open>
  The text "whole" does not start with a wh-word, does not end with a question mark,
  contains none of the three phrases and is one token; it is classified SEMANTIC, not
  KEYWORD.
\<close>

theorem wh_word_reading_counterexample:
  "\<not> starts_with_wh_word (str_strip ''whole'') \<and>
   \<not> suffix ''?'' (str_strip ''whole'') \<and>
   \<not> matches_explain (str_strip ''whole'') \<and>
   length (str_split (str_strip ''whole'')) = 1 \<and>
   determine_search_method
     \<lparr>query = ''whole'', platform = None, method' = None,
      filters = (None :: string dict option), limit = 10\<rparr> = SEMANTIC \<and>
   SEMANTIC \<noteq> KEYWORD"
  by code_simp

text \<open>
  C5, amended. For every query with no explicit method, no quote character in its text
  and none of the recognized filter keys, with \<open>t\<close> the text stripped of surrounding
  whitespace: if \<open>t\<close> begins in any case with one of the letter sequences what, how, why,
  when, where, who (whether or not the word ends there), ends with a question mark,
  contains in any case "explain", "describe" or "tell me about", or has more than 8
  whitespace-separated tokens, \<open>determine_search_method\<close> returns SEMANTIC; otherwise it
  returns KEYWORD.
\<close>

theorem semantic_or_keyword:
  assumes "method' q = None"
    and "CHR 0x22 \<notin> set (query q)" and "CHR 0x27 \<notin> set (query q)"
    and "\<not> filter_keys_recognized q"
    and "t = str_strip (query q)"
  shows "determine_search_method q =
     (if (\<exists>w \<in> {''what'', ''how'', ''why'', ''when'', ''where'', ''who''}. prefix w (str_lower t)) \<or>
         (t \<noteq> [] \<and> last t = CHR ''?'') \<or>
         (\<exists>w \<in> {''explain'', ''describe'', ''tell me about''}. sublist w (str_lower t)) \<or>
         8 < length (str_split t)
      then SEMANTIC else KEYWORD)"
proof -
  have wh: "matches_wh_start t \<longleftrightarrow>
      (\<exists>w \<in> {''what'', ''how'', ''why'', ''when'', ''where'', ''who''}. prefix w (str_lower t))"
    unfolding assms(5) matches_wh_start_strip by (simp add: wh_words_def)
  have ex: "matches_explain t \<longleftrightarrow>
      (\<exists>w \<in> {''explain'', ''describe'', ''tell me about''}. sublist w (str_lower t))"
    unfolding matches_explain_iff by (simp add: explain_phrases_def)
  have qe: "matches_question_end t \<longleftrightarrow> t \<noteq> [] \<and> last t = CHR ''?''"
    unfolding assms(5) by (rule matches_question_end_strip)
  have "determine_search_method q =
      (if matches_wh_start t \<or> matches_question_end t \<or> matches_explain t \<or>
          8 < length (str_split t) then SEMANTIC else KEYWORD)"
    using assms by (simp add: determine_search_method_heuristic)
  then show ?thesis unfolding wh ex qe .
qed


theorem semantic_or_keyword_witness:
  "determine_search_method
     \<lparr>query = '' roadmap 2024  '', platform = None, method' = None,
      filters = Some [(''status'', ''open'')], limit = 10\<rparr> = KEYWORD \<and>
   determine_search_method
     \<lparr>query = ''Please DESCRIBE it'', platform = None, method' = None,
      filters = (None :: string dict option), limit = 10\<rparr> = SEMANTIC \<and>
   determine_search_method
     \<lparr>query = CHR 0xA0 # ''what'', platform = None, method' = None,
      filters = (None :: string dict option), limit = 10\<rparr> = SEMANTIC \<and>
   determine_search_method
     \<lparr>query = ''budget?'' @ [CHR 0xA0], platform = None, method' = None,
      filters = (None :: string dict option), limit = 10\<rparr> = SEMANTIC \<and>
   determine_search_method
     \<lparr>query = [CHR ''a'', CHR 0xA0, CHR ''b'', CHR 0xA0, CHR ''c'', CHR 0xA0, CHR ''d'', CHR 0xA0,
               CHR ''e'', CHR 0xA0, CHR ''f'', CHR 0xA0, CHR ''g'', CHR 0xA0, CHR ''h'', CHR 0xA0,
               CHR ''i''],
      platform = None, method' = None,
      filters = (None :: string dict option), limit = 10\<rparr> = SEMANTIC"
proof -
  let ?q1 = "\<lparr>query = '' roadmap 2024  '', platform = None, method' = None,
      filters = Some [(''status'', ''open'')], limit = 10\<rparr>"
  let ?q2 = "\<lparr>query = ''Please DESCRIBE it'', platform = None, method' = None,
      filters = (None :: string dict option), limit = 10\<rparr>"
  let ?q3 = "\<lparr>query = CHR 0xA0 # ''what'', platform = None, method' = None,
      filters = (None :: string dict option), limit = 10\<rparr>"
  let ?q4 = "\<lparr>query = ''budget?'' @ [CHR 0xA0], platform = None, method' = None,
      filters = (None :: string dict option), limit = 10\<rparr>"
  let ?s5 = "[CHR ''a'', CHR 0xA0, CHR ''b'', CHR 0xA0, CHR ''c'', CHR 0xA0, CHR ''d'', CHR 0xA0,
              CHR ''e'', CHR 0xA0, CHR ''f'', CHR 0xA0, CHR ''g'', CHR 0xA0, CHR ''h'', CHR 0xA0,
              CHR ''i'']"
  let ?q5 = "\<lparr>query = ?s5, platform = None, method' = None,
      filters = (None :: string dict option), limit = 10\<rparr>"
  note ev = filter_keys_recognized_def str_lower_def lower_char_def upper_letters_def
    lower_letters_def str_in_sublist[symmetric] str_split_def isspace_def
  have t1: "str_strip '' roadmap 2024  '' = ''roadmap 2024''" by code_simp
  have t2: "str_strip ''Please DESCRIBE it'' = ''Please DESCRIBE it''" by code_simp
  have t3: "str_strip (CHR 0xA0 # ''what'') = ''what''" by code_simp
  have t4: "str_strip (''budget?'' @ [CHR 0xA0]) = ''budget?''" by code_simp
  have t5: "str_strip ?s5 = ?s5" by code_simp
  have "determine_search_method ?q1 = KEYWORD"
    by (subst semantic_or_keyword[of ?q1 "''roadmap 2024''"]) (simp_all add: t1 ev)
  moreover have "determine_search_method ?q2 = SEMANTIC"
    by (subst semantic_or_keyword[of ?q2 "''Please DESCRIBE it''"]) (simp_all add: t2 ev)
  moreover have "determine_search_method ?q3 = SEMANTIC"
    by (subst semantic_or_keyword[of ?q3 "''what''"]) (simp_all add: t3 ev)
  moreover have "determine_search_method ?q4 = SEMANTIC"
    by (subst semantic_or_keyword[of ?q4 "''budget?''"]) (simp_all add: t4[simplified] ev)
  moreover have "determine_search_method ?q5 = SEMANTIC"
    by (subst semantic_or_keyword[of ?q5 ?s5]) (simp_all add: t5 ev)
  ultimately show ?thesis by simp
qed

subsection \<open>Platform selection\<close>

text \<open>
  C7. For every query \<open>determine_platforms\<close> returns a non-empty list: the one-element
  list of the explicit platform when one is set; otherwise GOOGLE_DRIVE alone when only
  keywords of \<open>google_keywords\<close> occur in the lower-cased text, NOTION alone when only
  keywords of \<open>notion_keywords\<close> occur, and both platforms when keywords of both lists
  occur or of neither.
\<close>

theorem determine_platforms_selection:
  "determine_platforms q \<noteq> [] \<and>
   (\<forall>p. platform q = Some p \<longrightarrow> determine_platforms q = [p]) \<and>
   (platform q = None \<longrightarrow>
      determine_platforms q =
        (if (\<exists>k\<in>set google_keywords. sublist k (str_lower (query q))) \<and>
            \<not> (\<exists>k\<in>set notion_keywords. sublist k (str_lower (query q)))
         then [GOOGLE_DRIVE]
         else if (\<exists>k\<in>set notion_keywords. sublist k (str_lower (query q))) \<and>
                 \<not> (\<exists>k\<in>set google_keywords. sublist k (str_lower (query q)))
         then [NOTION]
         else [GOOGLE_DRIVE, NOTION]))"
  by (cases "platform q")
     (simp_all add: determine_platforms_def Let_def has_hint_def list_ex_iff str_in_sublist)

text \<open>The two platforms are all the platforms there are.\<close>

lemma all_platforms: "set [GOOGLE_DRIVE, NOTION] = UNIV"
proof -
  have "p \<in> set [GOOGLE_DRIVE, NOTION]" for p by (cases p) simp_all
  then show ?thesis by blast
qed

theorem determine_platforms_selection_witness:
  "determine_platforms
     \<lparr>query = ''find my Google Docs'', platform = None, method' = None,
      filters = (None :: string dict option), limit = 10\<rparr> = [GOOGLE_DRIVE] \<and>
   determine_platforms
     \<lparr>query = ''notion page about api'', platform = None, method' = None,
      filters = (None :: string dict option), limit = 10\<rparr> = [NOTION] \<and>
   determine_platforms
     \<lparr>query = ''drive or notion'', platform = None, method' = None,
      filters = (None :: string dict option), limit = 10\<rparr> = [GOOGLE_DRIVE, NOTION] \<and>
   determine_platforms
     \<lparr>query = ''budget'', platform = None, method' = None,
      filters = (None :: string dict option), limit = 10\<rparr> = [GOOGLE_DRIVE, NOTION] \<and>
   determine_platforms
     \<lparr>query = ''drive'', platform = Some NOTION, method' = None,
      filters = (None :: string dict option), limit = 10\<rparr> = [NOTION]"
proof -
  note ev = str_in_sublist[symmetric] google_keywords_def notion_keywords_def
    str_lower_def lower_char_def upper_letters_def lower_letters_def
  let ?q1 = "\<lparr>query = ''find my Google Docs'', platform = None, method' = None,
      filters = (None :: string dict option), limit = 10\<rparr>"
  let ?q2 = "\<lparr>query = ''notion page about api'', platform = None, method' = None,
      filters = (None :: string dict option), limit = 10\<rparr>"
  let ?q3 = "\<lparr>query = ''drive or notion'', platform = None, method' = None,
      filters = (None :: string dict option), limit = 10\<rparr>"
  let ?q4 = "\<lparr>query = ''budget'', platform = None, method' = None,
      filters = (None :: string dict option), limit = 10\<rparr>"
  let ?q5 = "\<lparr>query = ''drive'', platform = Some NOTION, method' = None,
      filters = (None :: string dict option), limit = 10\<rparr>"
  have "determine_platforms ?q1 = [GOOGLE_DRIVE]"
    using determine_platforms_selection[of ?q1] by (simp add: ev)
  moreover have "determine_platforms ?q2 = [NOTION]"
    using determine_platforms_selection[of ?q2] by (simp add: ev)
  moreover have "determine_platforms ?q3 = [GOOGLE_DRIVE, NOTION]"
    using determine_platforms_selection[of ?q3] by (simp add: ev)
  moreover have "determine_platforms ?q4 = [GOOGLE_DRIVE, NOTION]"
    using determine_platforms_selection[of ?q4] by (simp add: ev)
  moreover have "determine_platforms ?q5 = [NOTION]"
    using determine_platforms_selection[of ?q5] by simp
  ultimately show ?thesis by (intro conjI)
qed

section \<open>Properties of dispatch and aggregation\<close>

lemma dispatch_returns:
  "(\<And>p. p \<in> set ps \<Longrightarrow> sp p = Inr (rs p)) \<Longrightarrow>
     dispatch sp ps acc = Inr (acc @ concat (map rs ps))"
  by (induction ps arbitrary: acc) simp_all

text \<open>
  The loop has no exception handling of its own: an exception raised by a platform call
  leaves \<open>dispatch\<close> and, below, \<open>search_with\<close>.
\<close>

lemma dispatch_raises:
  "(\<And>p'. p' \<in> set ps \<Longrightarrow> sp p' = Inr (rs p')) \<Longrightarrow> sp p = Inl e \<Longrightarrow>
     dispatch sp (ps @ p # ps') acc = Inl e"
  by (induction ps arbitrary: acc) simp_all

lemma length_sort_reverse: "length (sort_reverse key xs) = length xs"
  by (simp add: sort_reverse_def)

text \<open>
  The sort of the source is the stable descending sort, and the three properties of
  \<open>stable_sorted_desc\<close> determine the sorted list.
\<close>

lemma sort_reverse_stable_sorted_desc: "stable_sorted_desc key xs (sort_reverse key xs)"
proof -
  have "sorted (map key (sort_key key (rev xs)))" by (rule sorted_sort_key)
  then have "sorted_wrt (\<lambda>a b. key a \<le> key b) (sort_key key (rev xs))"
    by (simp add: sorted_map)
  then have "sorted_wrt (\<lambda>a b. key b \<le> key a) (rev (sort_key key (rev xs)))"
    by (simp add: sorted_wrt_rev)
  moreover have "filter (\<lambda>x. key x = k) (rev (sort_key key (rev xs))) = filter (\<lambda>x. key x = k) xs"
    for k
  proof -
    have "filter (\<lambda>x. key x = k) (rev (sort_key key (rev xs)))
        = rev (filter (\<lambda>x. key x = k) (sort_key key (rev xs)))"
      by (simp add: rev_filter)
    also have "\<dots> = rev (filter (\<lambda>x. key x = k) (rev xs))"
      by (simp only: sort_key_stable)
    also have "\<dots> = filter (\<lambda>x. key x = k) xs"
      by (simp add: rev_filter)
    finally show ?thesis .
  qed
  ultimately show ?thesis
    by (simp add: stable_sorted_desc_def sort_reverse_def)
qed

lemma stable_sorted_desc_unique:
  assumes "stable_sorted_desc key xs ys"
  shows "ys = sort_reverse key xs"
proof -
  from assms have m: "mset ys = mset xs"
    and s: "sorted_wrt (\<lambda>a b. key b \<le> key a) ys"
    and f: "\<And>k. filter (\<lambda>x. key x = k) ys = filter (\<lambda>x. key x = k) xs"
    by (simp_all add: stable_sorted_desc_def)
  have "sort_key key (rev xs) = rev ys"
  proof (rule properties_for_sort_key)
    show "mset (rev ys) = mset (rev xs)" using m by simp
    show "filter (\<lambda>x. key k = key x) (rev ys) = filter (\<lambda>x. key k = key x) (rev xs)" for k
    proof -
      have "(\<lambda>x. key k = key x) = (\<lambda>x. key x = key k)" by auto
      then show ?thesis using f[of "key k"] by (simp add: rev_filter[symmetric])
    qed
    have "sorted_wrt (\<lambda>a b. key a \<le> key b) (rev ys)" using s by (simp add: sorted_wrt_rev)
    then show "sorted (map key (rev ys))" by (simp add: sorted_map)
  qed
  then show ?thesis by (simp add: sort_reverse_def)
qed

lemma slice_to_positive: "0 < n \<Longrightarrow> slice_to xs n = take (nat n) xs"
  by (simp add: slice_to_def)

lemma slice_to_zero: "slice_to xs 0 = []"
  by (simp add: slice_to_def)

lemma search_platform_with_unconfigured:
  "unconfigured self p \<Longrightarrow> search_platform_with gd nt self q p m = Inr []"
  by (cases p) (simp_all add: search_platform_with_def unconfigured_def)

text \<open>With the platform methods of the source every platform call returns the empty list.\<close>

lemma search_platform_returns_empty: "search_platform self q p m = Inr []"
  by (cases p)
     (simp_all add: search_platform_def search_platform_with_def search_google_drive_def
        search_notion_def)

lemma determine_platforms_nonempty: "determine_platforms q \<noteq> []"
  by (cases "platform q") (simp_all add: determine_platforms_def Let_def)

text \<open>The response of \<open>search\<close> when every platform call returns.\<close>

lemma search_with_returns:
  assumes "\<And>p. p \<in> set (determine_platforms q) \<Longrightarrow>
             search_platform_with gd nt self q p (determine_search_method q) = Inr (rs p)"
  shows "search_with gd nt self q =
     Inr \<lparr>results = slice_to (sort_reverse score (concat (map rs (determine_platforms q)))) (limit q),
          response_query = q,
          total_results = int (length (concat (map rs (determine_platforms q)))),
          platforms_searched = determine_platforms q,
          method_used = determine_search_method q\<rparr>"
proof -
  have "dispatch (\<lambda>p. search_platform_with gd nt self q p (determine_search_method q))
          (determine_platforms q) [] = Inr ([] @ concat (map rs (determine_platforms q)))"
    using assms by (rule dispatch_returns)
  then show ?thesis
    by (simp add: search_with_def Let_def length_sort_reverse)
qed

lemma search_with_propagates:
  assumes "determine_platforms q = ps @ p # ps'"
    and "\<And>p'. p' \<in> set ps \<Longrightarrow>
           search_platform_with gd nt self q p' (determine_search_method q) = Inr (rs p')"
    and "search_platform_with gd nt self q p (determine_search_method q) = Inl e"
  shows "search_with gd nt self q = Inl e"
proof -
  have "dispatch (\<lambda>p. search_platform_with gd nt self q p (determine_search_method q))
          (ps @ p # ps') [] = Inl e"
    using assms(2,3) by (rule dispatch_raises)
  then show ?thesis by (simp add: search_with_def Let_def assms(1))
qed

text \<open>The source as it is: every search returns a response with no results.\<close>

lemma search_returns:
  "search self q =
     Inr \<lparr>results = [], response_query = q, total_results = 0,
          platforms_searched = determine_platforms q,
          method_used = determine_search_method q\<rparr>"
proof -
  have *: "search_platform_with search_google_drive search_notion self q p
          (determine_search_method q) = Inr []" for p
    using search_platform_returns_empty[of self q p] by (simp add: search_platform_def)
  have c: "concat (map (\<lambda>p. []) ps) = ([] :: 'c list)" for ps :: "platform list"
    by (induction ps) simp_all
  show ?thesis
    unfolding search_def
    by (subst search_with_returns[where rs = "\<lambda>p. []"])
       (simp_all add: * c sort_reverse_def slice_to_def)
qed


subsection \<open>Aggregation\<close>

lemma example_result_simps:
  "result_id (example_result i p s) = i" "score (example_result i p s) = s"
  by (simp_all add: example_result_def)

text \<open>
  C2. For every query with positive limit and all per-platform result lists \<open>rs p\<close> returned
  for the selected platforms, \<open>search\<close> returns a response whose results are the first
  \<open>limit\<close> elements of the stable sort, by score descending, of the concatenation of the
  per-platform lists in platform-selection order (equal scores keep their order in the
  concatenation); the results are at most \<open>limit\<close> many, \<open>total_results\<close> is the length of
  the concatenation before truncation, and so \<open>total_results\<close> is at least the number of
  results.
\<close>

theorem search_aggregates:
  assumes "0 < limit q"
    and "\<forall>p \<in> set (determine_platforms q).
           search_platform_with gd nt self q p (determine_search_method q) = Inr (rs p)"
    and "all_results = concat (map rs (determine_platforms q))"
  shows "\<exists>r sorted_results.
           search_with gd nt self q = Inr r \<and>
           stable_sorted_desc score all_results sorted_results \<and>
           results r = take (nat (limit q)) sorted_results \<and>
           int (length (results r)) \<le> limit q \<and>
           total_results r = int (length all_results) \<and>
           int (length (results r)) \<le> total_results r"
proof -
  let ?r = "\<lparr>results = slice_to (sort_reverse score all_results) (limit q),
          response_query = q,
          total_results = int (length all_results),
          platforms_searched = determine_platforms q,
          method_used = determine_search_method q\<rparr>"
  have "search_with gd nt self q = Inr ?r"
    unfolding assms(3) using assms(2) by (intro search_with_returns) blast
  moreover have "stable_sorted_desc score all_results (sort_reverse score all_results)"
    by (rule sort_reverse_stable_sorted_desc)
  moreover have "results ?r = take (nat (limit q)) (sort_reverse score all_results)"
    using assms(1) by (simp add: slice_to_positive)
  moreover have "int (length (results ?r)) \<le> limit q"
    using assms(1) by (simp add: slice_to_positive)
  moreover have "total_results ?r = int (length all_results)" by simp
  moreover have "int (length (results ?r)) \<le> total_results ?r"
    using assms(1) by (simp add: slice_to_positive length_sort_reverse)
  ultimately show ?thesis by blast
qed

theorem search_aggregates_witness:
  "\<exists>r. search_with
          (\<lambda>q m. Inr [example_result ''a'' GOOGLE_DRIVE 0.5, example_result ''b'' GOOGLE_DRIVE 0.9])
          (\<lambda>q m. Inr [example_result ''c'' NOTION 0.9, example_result ''d'' NOTION 0.1])
          \<lparr>google_drive_retriever = Some (Retriever True), notion_retriever = Some (Retriever True)\<rparr>
          \<lparr>query = ''budget'', platform = None, method' = None, filters = None, limit = 3\<rparr>
        = Inr r \<and>
        map result_id (results r) = [''b'', ''c'', ''a''] \<and>
        total_results r = 4"
proof -
  let ?a = "example_result ''a'' GOOGLE_DRIVE 0.5" and ?b = "example_result ''b'' GOOGLE_DRIVE 0.9"
  let ?c = "example_result ''c'' NOTION 0.9" and ?d = "example_result ''d'' NOTION 0.1"
  let ?gd = "\<lambda>(q :: string search_query) (m :: search_method).
               Inr [?a, ?b] :: py_exception + string search_result list"
  let ?nt = "\<lambda>(q :: string search_query) (m :: search_method).
               Inr [?c, ?d] :: py_exception + string search_result list"
  let ?self = "\<lparr>google_drive_retriever = Some (Retriever True), notion_retriever = Some (Retriever True)\<rparr>"
  let ?q = "\<lparr>query = ''budget'', platform = None, method' = None,
              filters = (None :: string dict option), limit = 3\<rparr>"
  let ?rs = "\<lambda>p. case p of GOOGLE_DRIVE \<Rightarrow> [?a, ?b] | NOTION \<Rightarrow> [?c, ?d]"
  have dp: "determine_platforms ?q = [GOOGLE_DRIVE, NOTION]" by code_simp
  have "\<exists>r sorted_results.
           search_with ?gd ?nt ?self ?q = Inr r \<and>
           stable_sorted_desc score [?a, ?b, ?c, ?d] sorted_results \<and>
           results r = take (nat (limit ?q)) sorted_results \<and>
           int (length (results r)) \<le> limit ?q \<and>
           total_results r = int (length [?a, ?b, ?c, ?d]) \<and>
           int (length (results r)) \<le> total_results r"
    by (rule search_aggregates[where rs = ?rs]) (simp_all add: dp search_platform_with_def py_not_def)
  then obtain r s where r: "search_with ?gd ?nt ?self ?q = Inr r"
    and s: "stable_sorted_desc score [?a, ?b, ?c, ?d] s"
    and rs: "results r = take (nat (limit ?q)) s"
    and t: "total_results r = int (length [?a, ?b, ?c, ?d])"
    by blast
  from s have "s = sort_reverse score [?a, ?b, ?c, ?d]" by (rule stable_sorted_desc_unique)
  then have "s = [?b, ?c, ?a, ?d]" by (simp add: sort_reverse_def example_result_simps)
  with rs have "map result_id (results r) = [''b'', ''c'', ''a'']"
    by (simp add: example_result_simps)
  with r t show ?thesis by simp
qed

subsection \<open>Unconfigured and failing retrievers\<close>

text \<open>
  Both retrievers are configured. When the drive's platform method raises, \<open>search\<close> raises
  and the result the workspace would have returned is lost; when the drive returns a result
  and the workspace's platform method raises, \<open>search\<close> raises as well.
\<close>

theorem search_raising_platform_counterexample:
  "search_with
     (\<lambda>q m. Inl (PyException ''drive quota exceeded''))
     (\<lambda>q m. Inr [example_result ''c'' NOTION 0.9])
     \<lparr>google_drive_retriever = Some (Retriever True), notion_retriever = Some (Retriever True)\<rparr>
     \<lparr>query = ''budget'', platform = None, method' = None, filters = None, limit = 10\<rparr>
   = Inl (PyException ''drive quota exceeded'') \<and>
   search_with
     (\<lambda>q m. Inr [example_result ''a'' GOOGLE_DRIVE 0.5])
     (\<lambda>q m. Inl (PyException ''workspace timed out''))
     \<lparr>google_drive_retriever = Some (Retriever True), notion_retriever = Some (Retriever True)\<rparr>
     \<lparr>query = ''budget'', platform = None, method' = None, filters = None, limit = 10\<rparr>
   = Inl (PyException ''workspace timed out'')"
proof -
  let ?q = "\<lparr>query = ''budget'', platform = None, method' = None,
              filters = (None :: string dict option), limit = 10\<rparr>"
  have dp: "determine_platforms ?q = [GOOGLE_DRIVE, NOTION]" by code_simp
  show ?thesis
    by (simp add: search_with_def Let_def dp search_platform_with_def py_not_def)
qed

text \<open>
  C8, amended. If one or more, up to all, of the selected platforms' retrievers are
  unconfigured or unavailable (\<^verbatim>\<open>None\<close> or falsy), and the platform calls that are made
  return, \<open>search\<close> does not raise: each such platform contributes zero results (its
  platform method is not called, so nothing is assumed of \<open>gd\<close> or \<open>nt\<close> for it), the
  results \<open>g\<close> and \<open>n\<close> of the remaining platforms still appear in the response, and when the
  retriever of every selected platform is unconfigured the response is a well-formed one
  with empty results and \<open>total_results = 0\<close>.
\<close>

theorem search_tolerates_unconfigured_retrievers:
  assumes "GOOGLE_DRIVE \<in> set (determine_platforms q) \<Longrightarrow> \<not> unconfigured self GOOGLE_DRIVE \<Longrightarrow>
             gd q (determine_search_method q) = Inr g"
    and "NOTION \<in> set (determine_platforms q) \<Longrightarrow> \<not> unconfigured self NOTION \<Longrightarrow>
             nt q (determine_search_method q) = Inr n"
    and "contribution =
           (\<lambda>p. if unconfigured self p then []
                else (case p of GOOGLE_DRIVE \<Rightarrow> g | NOTION \<Rightarrow> n))"
  shows "\<exists>r. search_with gd nt self q = Inr r \<and>
             results r =
               slice_to (sort_reverse score (concat (map contribution (determine_platforms q))))
                 (limit q) \<and>
             total_results r = int (length (concat (map contribution (determine_platforms q)))) \<and>
             response_query r = q \<and>
             platforms_searched r = determine_platforms q \<and>
             method_used r = determine_search_method q \<and>
             ((\<forall>p \<in> set (determine_platforms q). unconfigured self p) \<longrightarrow>
                results r = [] \<and> total_results r = 0)"
proof -
  have call: "search_platform_with gd nt self q p (determine_search_method q) = Inr (contribution p)"
    if "p \<in> set (determine_platforms q)" for p
  proof (cases p)
    case GOOGLE_DRIVE
    with that assms(1) show ?thesis
      by (auto simp: search_platform_with_def unconfigured_def assms(3))
  next
    case NOTION
    with that assms(2) show ?thesis
      by (auto simp: search_platform_with_def unconfigured_def assms(3))
  qed
  have sw: "search_with gd nt self q =
     Inr \<lparr>results = slice_to (sort_reverse score (concat (map contribution (determine_platforms q))))
                      (limit q),
          response_query = q,
          total_results = int (length (concat (map contribution (determine_platforms q)))),
          platforms_searched = determine_platforms q,
          method_used = determine_search_method q\<rparr>"
    by (intro search_with_returns call)
  have none: "concat (map contribution ps) = []" if "\<forall>p \<in> set ps. unconfigured self p" for ps
    using that by (induction ps) (simp_all add: assms(3))
  have empty: "(\<forall>p \<in> set (determine_platforms q). unconfigured self p) \<longrightarrow>
      slice_to (sort_reverse score (concat (map contribution (determine_platforms q)))) (limit q) = [] \<and>
      int (length (concat (map contribution (determine_platforms q)))) = 0"
  proof (intro impI)
    assume "\<forall>p \<in> set (determine_platforms q). unconfigured self p"
    then have c: "concat (map contribution (determine_platforms q)) = []"
      by (rule none)
    show "slice_to (sort_reverse score (concat (map contribution (determine_platforms q))))
            (limit q) = [] \<and>
          int (length (concat (map contribution (determine_platforms q)))) = 0"
      unfolding c by (simp add: sort_reverse_def slice_to_def)
  qed
  then show ?thesis unfolding sw by simp
qed

theorem search_tolerates_unconfigured_retrievers_witness:
  "(\<exists>r. search_with
          (\<lambda>q m. Inl (PyException ''drive is not set up''))
          (\<lambda>q m. Inr [example_result ''c'' NOTION 0.1, example_result ''d'' NOTION 0.9])
          \<lparr>google_drive_retriever = None, notion_retriever = Some (Retriever True)\<rparr>
          \<lparr>query = ''budget'', platform = None, method' = None, filters = None, limit = 10\<rparr>
        = Inr r \<and>
        map result_id (results r) = [''d'', ''c''] \<and>
        total_results r = 2 \<and>
        platforms_searched r = [GOOGLE_DRIVE, NOTION]) \<and>
   (\<exists>r. search_with
          (\<lambda>q m. Inl (PyException ''drive is not set up''))
          (\<lambda>q m. Inl (PyException ''workspace is not set up''))
          \<lparr>google_drive_retriever = None, notion_retriever = Some (Retriever False)\<rparr>
          \<lparr>query = ''budget'', platform = None, method' = None,
           filters = (None :: string dict option), limit = 10\<rparr>
        = Inr r \<and>
        results r = [] \<and>
        total_results r = 0 \<and>
        platforms_searched r = [GOOGLE_DRIVE, NOTION])"
proof -
  let ?c = "example_result ''c'' NOTION 0.1" and ?d = "example_result ''d'' NOTION 0.9"
  let ?gd = "\<lambda>(q :: string search_query) (m :: search_method).
               Inl (PyException ''drive is not set up'') :: py_exception + string search_result list"
  let ?nt = "\<lambda>(q :: string search_query) (m :: search_method).
               Inr [?c, ?d] :: py_exception + string search_result list"
  let ?nt' = "\<lambda>(q :: string search_query) (m :: search_method).
               Inl (PyException ''workspace is not set up'')
                 :: py_exception + string search_result list"
  let ?self = "\<lparr>google_drive_retriever = None, notion_retriever = Some (Retriever True)\<rparr>"
  let ?self' = "\<lparr>google_drive_retriever = None, notion_retriever = Some (Retriever False)\<rparr>"
  let ?q = "\<lparr>query = ''budget'', platform = None, method' = None,
              filters = (None :: string dict option), limit = 10\<rparr>"
  let ?k = "\<lambda>p. if unconfigured ?self p then []
                else (case p of GOOGLE_DRIVE \<Rightarrow> [] | NOTION \<Rightarrow> [?c, ?d])"
  let ?k' = "\<lambda>p. if unconfigured ?self' p then []
                else (case p of GOOGLE_DRIVE \<Rightarrow> ([] :: string search_result list) | NOTION \<Rightarrow> [])"
  note ev = unconfigured_def py_not_def
  have dp: "determine_platforms ?q = [GOOGLE_DRIVE, NOTION]" by code_simp
  have "\<exists>r. search_with ?gd ?nt ?self ?q = Inr r \<and>
             results r = slice_to (sort_reverse score (concat (map ?k (determine_platforms ?q))))
                           (limit ?q) \<and>
             total_results r = int (length (concat (map ?k (determine_platforms ?q)))) \<and>
             response_query r = ?q \<and>
             platforms_searched r = determine_platforms ?q \<and>
             method_used r = determine_search_method ?q \<and>
             ((\<forall>p \<in> set (determine_platforms ?q). unconfigured ?self p) \<longrightarrow>
                results r = [] \<and> total_results r = 0)"
    by (rule search_tolerates_unconfigured_retrievers[where g = "[]" and n = "[?c, ?d]"])
       (simp_all add: ev)
  then have 1: "\<exists>r. search_with ?gd ?nt ?self ?q = Inr r \<and>
        map result_id (results r) = [''d'', ''c''] \<and> total_results r = 2 \<and>
        platforms_searched r = [GOOGLE_DRIVE, NOTION]"
    by (auto simp: dp ev sort_reverse_def slice_to_def example_result_simps)
  have "\<exists>r. search_with ?gd ?nt' ?self' ?q = Inr r \<and>
             results r = slice_to (sort_reverse score (concat (map ?k' (determine_platforms ?q))))
                           (limit ?q) \<and>
             total_results r = int (length (concat (map ?k' (determine_platforms ?q)))) \<and>
             response_query r = ?q \<and>
             platforms_searched r = determine_platforms ?q \<and>
             method_used r = determine_search_method ?q \<and>
             ((\<forall>p \<in> set (determine_platforms ?q). unconfigured ?self' p) \<longrightarrow>
                results r = [] \<and> total_results r = 0)"
    by (rule search_tolerates_unconfigured_retrievers[where g = "[]" and n = "[]"])
       (simp_all add: ev)
  then have 2: "\<exists>r. search_with ?gd ?nt' ?self' ?q = Inr r \<and>
        results r = [] \<and> total_results r = 0 \<and>
        platforms_searched r = [GOOGLE_DRIVE, NOTION]"
    by (auto simp: dp ev)
  from 1 2 show ?thesis by (intro conjI)
qed

subsection \<open>No validation\<close>

text \<open>
  A query with empty text, and a query with limit 0, on a fresh orchestrator: \<open>search\<close>
  raises nothing and returns a response.
\<close>

theorem search_without_validation_counterexample:
  "search orchestrator_init
     \<lparr>query = [], platform = None, method' = None, filters = (None :: string dict option),
      limit = 10\<rparr>
   = Inr \<lparr>results = [],
          response_query =
            \<lparr>query = [], platform = None, method' = None, filters = None, limit = 10\<rparr>,
          total_results = 0,
          platforms_searched = [GOOGLE_DRIVE, NOTION],
          method_used = KEYWORD\<rparr> \<and>
   search orchestrator_init
     \<lparr>query = ''budget'', platform = None, method' = None, filters = (None :: string dict option),
      limit = 0\<rparr>
   = Inr \<lparr>results = [],
          response_query =
            \<lparr>query = ''budget'', platform = None, method' = None, filters = None, limit = 0\<rparr>,
          total_results = 0,
          platforms_searched = [GOOGLE_DRIVE, NOTION],
          method_used = KEYWORD\<rparr>"
proof -
  let ?q1 = "\<lparr>query = [], platform = None, method' = None,
               filters = (None :: string dict option), limit = 10\<rparr>"
  let ?q2 = "\<lparr>query = ''budget'', platform = None, method' = None,
               filters = (None :: string dict option), limit = 0\<rparr>"
  have "determine_platforms ?q1 = [GOOGLE_DRIVE, NOTION]"
    and "determine_search_method ?q1 = KEYWORD"
    and "determine_platforms ?q2 = [GOOGLE_DRIVE, NOTION]"
    and "determine_search_method ?q2 = KEYWORD"
    by code_simp+
  then show ?thesis by (simp add: search_returns)
qed

text \<open>
  C1, amended. For every query whose text is empty or whose limit is not positive,
  \<open>search\<close> does no validation and raises no validation error: the platforms are selected
  and dispatched as for any other query, and a response is assembled that carries the
  query, the selected platforms (never none), the selected method and, as
  \<open>total_results\<close>, the number of all results the platform calls returned; with limit 0
  its results are empty.
\<close>

theorem search_does_not_validate:
  assumes "query q = [] \<or> limit q \<le> 0"
    and "\<forall>p \<in> set (determine_platforms q).
           search_platform_with gd nt self q p (determine_search_method q) = Inr (rs p)"
  shows "\<exists>r. search_with gd nt self q = Inr r \<and>
             response_query r = q \<and>
             platforms_searched r = determine_platforms q \<and>
             platforms_searched r \<noteq> [] \<and>
             method_used r = determine_search_method q \<and>
             total_results r = int (length (concat (map rs (determine_platforms q)))) \<and>
             (limit q = 0 \<longrightarrow> results r = [])"
proof -
  have "search_with gd nt self q =
     Inr \<lparr>results = slice_to (sort_reverse score (concat (map rs (determine_platforms q)))) (limit q),
          response_query = q,
          total_results = int (length (concat (map rs (determine_platforms q)))),
          platforms_searched = determine_platforms q,
          method_used = determine_search_method q\<rparr>"
    using assms(2) by (intro search_with_returns) blast
  then show ?thesis
    by (simp add: determine_platforms_nonempty slice_to_zero)
qed

theorem search_does_not_validate_witness:
  "\<exists>r. search_with
          (\<lambda>q m. Inr [example_result ''a'' GOOGLE_DRIVE 0.5])
          (\<lambda>q m. Inr [example_result ''c'' NOTION 0.9])
          \<lparr>google_drive_retriever = Some (Retriever True), notion_retriever = Some (Retriever True)\<rparr>
          \<lparr>query = [], platform = None, method' = None, filters = None, limit = 0\<rparr>
        = Inr r \<and>
        results r = [] \<and>
        total_results r = 2 \<and>
        platforms_searched r = [GOOGLE_DRIVE, NOTION] \<and>
        method_used r = KEYWORD"
proof -
  let ?a = "example_result ''a'' GOOGLE_DRIVE 0.5" and ?c = "example_result ''c'' NOTION 0.9"
  let ?gd = "\<lambda>(q :: string search_query) (m :: search_method).
               Inr [?a] :: py_exception + string search_result list"
  let ?nt = "\<lambda>(q :: string search_query) (m :: search_method).
               Inr [?c] :: py_exception + string search_result list"
  let ?self = "\<lparr>google_drive_retriever = Some (Retriever True), notion_retriever = Some (Retriever True)\<rparr>"
  let ?q = "\<lparr>query = [], platform = None, method' = None,
              filters = (None :: string dict option), limit = 0\<rparr>"
  let ?rs = "\<lambda>p. case p of GOOGLE_DRIVE \<Rightarrow> [?a] | NOTION \<Rightarrow> [?c]"
  have dp: "determine_platforms ?q = [GOOGLE_DRIVE, NOTION]" by code_simp
  have dm: "determine_search_method ?q = KEYWORD" by code_simp
  have "\<exists>r. search_with ?gd ?nt ?self ?q = Inr r \<and>
             response_query r = ?q \<and>
             platforms_searched r = determine_platforms ?q \<and>
             platforms_searched r \<noteq> [] \<and>
             method_used r = determine_search_method ?q \<and>
             total_results r = int (length (concat (map ?rs (determine_platforms ?q)))) \<and>
             (limit ?q = 0 \<longrightarrow> results r = [])"
    by (rule search_does_not_validate) (simp_all add: dp search_platform_with_def py_not_def)
  then show ?thesis by (auto simp: dp dm)
qed

end
